theory Spec2Isabelle
  imports Complex_Main
begin

section \<open>Numbers: float64 values in exact arithmetic\<close>

text \<open>
  The arrays of \<^verbatim>\<open>regression.py\<close> hold NumPy float64 values. The model keeps the
  four kinds of value such an element can be: a finite number, the two infinities and
  NaN. Finite arithmetic is exact (no rounding, no overflow to infinity, no signed
  zero); the non-finite cases follow IEEE 754, which NumPy applies without raising:
  a division by zero yields an infinity or NaN and a warning, never an exception.
\<close>

datatype npfloat = Fin real | PInf | NInf | NaN

fun is_finite :: "npfloat \<Rightarrow> bool" where
  "is_finite (Fin a) = True"
| "is_finite PInf = False"
| "is_finite NInf = False"
| "is_finite NaN = False"

definition inf_of_sign :: "real \<Rightarrow> npfloat" where
  "inf_of_sign s = (if 0 < s then PInf else if s < 0 then NInf else NaN)"

fun fneg :: "npfloat \<Rightarrow> npfloat" where
  "fneg (Fin a) = Fin (- a)"
| "fneg PInf = NInf"
| "fneg NInf = PInf"
| "fneg NaN = NaN"

fun fadd :: "npfloat \<Rightarrow> npfloat \<Rightarrow> npfloat" where
  "fadd (Fin a) (Fin b) = Fin (a + b)"
| "fadd (Fin a) PInf = PInf"
| "fadd (Fin a) NInf = NInf"
| "fadd PInf (Fin b) = PInf"
| "fadd PInf PInf = PInf"
| "fadd PInf NInf = NaN"
| "fadd NInf (Fin b) = NInf"
| "fadd NInf NInf = NInf"
| "fadd NInf PInf = NaN"
| "fadd NaN b = NaN"
| "fadd a NaN = NaN"

definition fsub :: "npfloat \<Rightarrow> npfloat \<Rightarrow> npfloat" where
  "fsub a b = fadd a (fneg b)"

fun fmul :: "npfloat \<Rightarrow> npfloat \<Rightarrow> npfloat" where
  "fmul (Fin a) (Fin b) = Fin (a * b)"
| "fmul (Fin a) PInf = inf_of_sign a"
| "fmul (Fin a) NInf = inf_of_sign (- a)"
| "fmul PInf (Fin b) = inf_of_sign b"
| "fmul NInf (Fin b) = inf_of_sign (- b)"
| "fmul PInf PInf = PInf"
| "fmul PInf NInf = NInf"
| "fmul NInf PInf = NInf"
| "fmul NInf NInf = PInf"
| "fmul NaN b = NaN"
| "fmul a NaN = NaN"

fun fdiv :: "npfloat \<Rightarrow> npfloat \<Rightarrow> npfloat" where
  "fdiv (Fin a) (Fin b) = (if b = 0 then inf_of_sign a else Fin (a / b))"
| "fdiv (Fin a) PInf = Fin 0"
| "fdiv (Fin a) NInf = Fin 0"
| "fdiv PInf (Fin b) = (if b < 0 then NInf else PInf)"
| "fdiv NInf (Fin b) = (if b < 0 then PInf else NInf)"
| "fdiv PInf PInf = NaN"
| "fdiv PInf NInf = NaN"
| "fdiv NInf PInf = NaN"
| "fdiv NInf NInf = NaN"
| "fdiv NaN b = NaN"
| "fdiv a NaN = NaN"

fun fsqrt :: "npfloat \<Rightarrow> npfloat" where
  "fsqrt (Fin a) = (if a < 0 then NaN else Fin (sqrt a))"
| "fsqrt PInf = PInf"
| "fsqrt NInf = NaN"
| "fsqrt NaN = NaN"

text \<open>A reduction \<^verbatim>\<open>add.reduce\<close> over a sequence of elements, from the left, starting at 0.\<close>

definition fsum :: "npfloat list \<Rightarrow> npfloat" where
  "fsum xs = foldl fadd (Fin 0) xs"

section \<open>Arrays\<close>

text \<open>
  A two-dimensional \<^verbatim>\<open>ndarray\<close>: its shape and its rows. The shape is stored, as NumPy
  stores it, so that an array with no row still has a column count. \<open>wf\<close> says that the
  rows agree with the shape; every array built by \<open>mk\<close> is well formed.
\<close>

record ndarray =
  nrows :: nat
  ncols :: nat
  elems :: "npfloat list list"

definition wf :: "ndarray \<Rightarrow> bool" where
  "wf A \<longleftrightarrow> length (elems A) = nrows A \<and> list_all (\<lambda>r. length r = ncols A) (elems A)"

definition el :: "ndarray \<Rightarrow> nat \<Rightarrow> nat \<Rightarrow> npfloat" where
  "el A i j = elems A ! i ! j"

definition mk :: "nat \<Rightarrow> nat \<Rightarrow> (nat \<Rightarrow> nat \<Rightarrow> npfloat) \<Rightarrow> ndarray" where
  "mk m n f = \<lparr>nrows = m, ncols = n, elems = map (\<lambda>i. map (f i) [0..<n]) [0..<m]\<rparr>"

definition all_finite :: "ndarray \<Rightarrow> bool" where
  "all_finite A \<longleftrightarrow> list_all (list_all is_finite) (elems A)"

text \<open>The real number held by a finite element, for stating results in real arithmetic.\<close>

fun fin_val :: "npfloat \<Rightarrow> real" where
  "fin_val (Fin a) = a"
| "fin_val PInf = 0"
| "fin_val NInf = 0"
| "fin_val NaN = 0"

definition val :: "ndarray \<Rightarrow> nat \<Rightarrow> nat \<Rightarrow> real" where
  "val A i j = fin_val (el A i j)"

datatype error = ValueError | ZeroDivisionError | IndexError

text \<open>\<^verbatim>\<open>np.zeros((m, n))\<close> and \<^verbatim>\<open>np.ones((m, n))\<close>.\<close>

definition zeros :: "nat \<Rightarrow> nat \<Rightarrow> ndarray" where
  "zeros m n = mk m n (\<lambda>i j. Fin 0)"

definition ones :: "nat \<Rightarrow> nat \<Rightarrow> ndarray" where
  "ones m n = mk m n (\<lambda>i j. Fin 1)"

text \<open>\<^verbatim>\<open>np.transpose(A)\<close> of a two-dimensional array.\<close>

definition transpose_nd :: "ndarray \<Rightarrow> ndarray" where
  "transpose_nd A = mk (ncols A) (nrows A) (\<lambda>i j. el A j i)"

text \<open>
  \<^verbatim>\<open>A @ B\<close>: the inner dimensions must agree, or NumPy raises \<^verbatim>\<open>ValueError\<close>.
\<close>

definition matmul :: "ndarray \<Rightarrow> ndarray \<Rightarrow> error + ndarray" where
  "matmul A B =
     (if ncols A = nrows B
      then Inr (mk (nrows A) (ncols B)
                  (\<lambda>i j. fsum (map (\<lambda>k. fmul (el A i k) (el B k j)) [0..<ncols A])))
      else Inl ValueError)"

text \<open>
  Broadcasting of one dimension: equal extents, or one of them is 1 and is stretched.
\<close>

definition broadcast_dim :: "nat \<Rightarrow> nat \<Rightarrow> nat option" where
  "broadcast_dim a b =
     (if a = b then Some a else if a = 1 then Some b else if b = 1 then Some a else None)"

definition bidx :: "nat \<Rightarrow> nat \<Rightarrow> nat" where
  "bidx extent i = (if extent = 1 then 0 else i)"

text \<open>\<^verbatim>\<open>A - B\<close> on two-dimensional arrays, with broadcasting.\<close>

definition sub :: "ndarray \<Rightarrow> ndarray \<Rightarrow> error + ndarray" where
  "sub A B =
     (case (broadcast_dim (nrows A) (nrows B), broadcast_dim (ncols A) (ncols B)) of
        (Some m, Some n) \<Rightarrow>
          Inr (mk m n (\<lambda>i j. fsub (el A (bidx (nrows A) i) (bidx (ncols A) j))
                                   (el B (bidx (nrows B) i) (bidx (ncols B) j))))
      | _ \<Rightarrow> Inl ValueError)"

text \<open>A Python float times an array, and \<^verbatim>\<open>np.square\<close>.\<close>

definition smul :: "npfloat \<Rightarrow> ndarray \<Rightarrow> ndarray" where
  "smul c A = mk (nrows A) (ncols A) (\<lambda>i j. fmul c (el A i j))"

definition square :: "ndarray \<Rightarrow> ndarray" where
  "square A = mk (nrows A) (ncols A) (\<lambda>i j. fmul (el A i j) (el A i j))"

section \<open>The program\<close>

subsection \<open>normalize\<close>

text \<open>
  \<^verbatim>\<open>np.mean(X, axis=0)\<close> and \<^verbatim>\<open>np.std(X, axis=0)\<close>: one value per column, the
  column's sum divided by the number of rows, and the square root of the mean of the
  squared deviations from that mean (the population standard deviation). With no row
  both divide 0 by 0, which is NaN.
\<close>

definition column :: "ndarray \<Rightarrow> nat \<Rightarrow> npfloat list" where
  "column A j = map (\<lambda>i. el A i j) [0..<nrows A]"

definition mean_of :: "npfloat list \<Rightarrow> npfloat" where
  "mean_of xs = fdiv (fsum xs) (Fin (real (length xs)))"

definition std_of :: "npfloat list \<Rightarrow> npfloat" where
  "std_of xs =
     (let arrmean = mean_of xs;
          x = map (\<lambda>a. fsub a arrmean) xs;
          x = map (\<lambda>d. fmul d d) x
      in fsqrt (fdiv (fsum x) (Fin (real (length xs)))))"

definition mean_axis0 :: "ndarray \<Rightarrow> npfloat list" where
  "mean_axis0 A = map (\<lambda>j. mean_of (column A j)) [0..<ncols A]"

definition std_axis0 :: "ndarray \<Rightarrow> npfloat list" where
  "std_axis0 A = map (\<lambda>j. std_of (column A j)) [0..<ncols A]"

text \<open>
  \<^verbatim>\<open>return (X - mu) / sigma\<close>: the one-dimensional \<open>mu\<close> and \<open>sigma\<close> are broadcast along
  the rows. There is no test of \<open>sigma\<close> and no exception: the division is \<open>fdiv\<close>.
\<close>

definition normalize :: "ndarray \<Rightarrow> ndarray" where
  "normalize X =
     (let mu = mean_axis0 X;
          sigma = std_axis0 X
      in mk (nrows X) (ncols X) (\<lambda>i j. fdiv (fsub (el X i j) (mu ! j)) (sigma ! j)))"

subsection \<open>load_data\<close>

text \<open>
  \<open>load_data\<close> after \<^verbatim>\<open>pd.read_csv\<close>: the argument is the parsed table. The three steps on
  the features are \<^verbatim>\<open>data.iloc[:, 0:-1]\<close>, the guarded call of \<open>normalize\<close> (lines 61 to 63)
  and \<^verbatim>\<open>np.append(np.ones((m, 1)), X, axis=1)\<close>.
\<close>

definition feature_columns :: "ndarray \<Rightarrow> ndarray" where
  "feature_columns data = mk (nrows data) (ncols data - 1) (\<lambda>i j. el data i j)"

definition normalize_features :: "ndarray \<Rightarrow> ndarray" where
  "normalize_features X = (if 1 < ncols X then normalize X else X)"

definition append_ones :: "nat \<Rightarrow> ndarray \<Rightarrow> ndarray" where
  "append_ones m X = mk m (Suc (ncols X)) (\<lambda>i j. if j = 0 then Fin 1 else el X i (j - 1))"

definition load_data :: "ndarray \<Rightarrow> error + (ndarray \<times> ndarray \<times> ndarray \<times> nat \<times> nat)" where
  "load_data data =
     (let m = nrows data;
          X = feature_columns data;
          X = normalize_features X;
          X = append_ones m X
      in if ncols data = 0 then Inl IndexError
         else
           let y = mk m 1 (\<lambda>i j. el data i (ncols data - 1));
               n = ncols X;
               theta = zeros n 1
           in Inr (X, y, theta, m, n))"

subsection \<open>cost_function\<close>

text \<open>
  What \<open>cost_function\<close> hands back is a Python float or a one-dimensional array.
  The builtin \<^verbatim>\<open>sum\<close> starts at the int 0 and adds the rows of its argument from the
  first to the last; on an array with no row it returns that 0, otherwise a
  one-dimensional array whose entry \<open>j\<close> is the sum of column \<open>j\<close> taken in that order.
\<close>

datatype pyval = Scalar npfloat | Arr1 "npfloat list"

definition py_sum :: "ndarray \<Rightarrow> pyval" where
  "py_sum A =
     (if nrows A = 0 then Scalar (Fin 0)
      else Arr1 (map (\<lambda>j. fsum (column A j)) [0..<ncols A]))"

fun py_mul :: "npfloat \<Rightarrow> pyval \<Rightarrow> pyval" where
  "py_mul c (Scalar v) = Scalar (fmul c v)"
| "py_mul c (Arr1 vs) = Arr1 (map (fmul c) vs)"

text \<open>
  \<open>m\<close> is a Python int: \<^verbatim>\<open>1 / (2 * m)\<close> raises \<^verbatim>\<open>ZeroDivisionError\<close> when it is 0,
  after the two array expressions above it have been evaluated.
\<close>

definition cost_function :: "ndarray \<Rightarrow> ndarray \<Rightarrow> ndarray \<Rightarrow> int \<Rightarrow> error + pyval" where
  "cost_function X y theta m =
     (case matmul X theta of
        Inl e \<Rightarrow> Inl e
      | Inr predictions \<Rightarrow>
          (case sub predictions y of
             Inl e \<Rightarrow> Inl e
           | Inr d \<Rightarrow>
               let sqr_err = square d
               in if 2 * m = 0 then Inl ZeroDivisionError
                  else Inr (py_mul (Fin (1 / real_of_int (2 * m))) (py_sum sqr_err))))"

subsection \<open>plot_cost and gradient_descent\<close>

text \<open>
  The display is the only effect outside the function: \<open>plot_cost\<close> adds the array it is
  given to the list of what has been plotted. A call of \<open>gradient_descent\<close> ends in an
  exception or in an \<open>outcome\<close>: the value of its \<^verbatim>\<open>return\<close> statement and what it plotted.
\<close>

definition plot_cost :: "ndarray \<Rightarrow> ndarray list \<Rightarrow> ndarray list" where
  "plot_cost costs shown = shown @ [costs]"

record outcome =
  returned :: ndarray
  plotted :: "ndarray list"

text \<open>
  Lines 147 to 150, the new \<open>theta\<close>. \<^verbatim>\<open>alpha / m\<close> divides a Python float by a Python
  int and raises \<^verbatim>\<open>ZeroDivisionError\<close> when \<open>m\<close> is 0; \<open>difference\<close> and \<open>delta\<close> have
  been computed by then.
\<close>

definition update_theta :: "ndarray \<Rightarrow> ndarray \<Rightarrow> ndarray \<Rightarrow> npfloat \<Rightarrow> int \<Rightarrow> error + ndarray" where
  "update_theta X y theta alpha m =
     (case matmul X theta of
        Inl e \<Rightarrow> Inl e
      | Inr p \<Rightarrow>
          (case sub p y of
             Inl e \<Rightarrow> Inl e
           | Inr r \<Rightarrow>
               let difference = transpose_nd r
               in (case matmul difference X of
                     Inl e \<Rightarrow> Inl e
                   | Inr q \<Rightarrow>
                       let delta = transpose_nd q
                       in if m = 0 then Inl ZeroDivisionError
                          else sub theta (smul (fdiv alpha (Fin (real_of_int m))) delta))))"

text \<open>
  \<^verbatim>\<open>j_vals[i][0] = c\<close>: a float is stored as it is, a one-element array gives its
  element, any other array is refused with \<^verbatim>\<open>ValueError\<close>.
\<close>

fun as_scalar :: "pyval \<Rightarrow> npfloat option" where
  "as_scalar (Scalar v) = Some v"
| "as_scalar (Arr1 [v]) = Some v"
| "as_scalar (Arr1 vs) = None"

definition setitem :: "ndarray \<Rightarrow> nat \<Rightarrow> nat \<Rightarrow> pyval \<Rightarrow> error + ndarray" where
  "setitem J i j c =
     (if i < nrows J \<and> j < ncols J
      then (case as_scalar c of
              Some v \<Rightarrow> Inr (J\<lparr>elems := (elems J)[i := (elems J ! i)[j := v]]\<rparr>)
            | None \<Rightarrow> Inl ValueError)
      else Inl IndexError)"

text \<open>The body of the loop at index \<open>i\<close>, on the loop state \<open>(theta, j_vals)\<close>.\<close>

definition gd_body ::
  "ndarray \<Rightarrow> ndarray \<Rightarrow> npfloat \<Rightarrow> int \<Rightarrow> nat \<Rightarrow> ndarray \<times> ndarray \<Rightarrow> error + ndarray \<times> ndarray" where
  "gd_body X y alpha m i s =
     (case update_theta X y (fst s) alpha m of
        Inl e \<Rightarrow> Inl e
      | Inr theta \<Rightarrow>
          (case cost_function X y theta m of
             Inl e \<Rightarrow> Inl e
           | Inr c \<Rightarrow>
               (case setitem (snd s) i 0 c of
                  Inl e \<Rightarrow> Inl e
                | Inr j_vals \<Rightarrow> Inr (theta, j_vals))))"

text \<open>\<^verbatim>\<open>for i in range(num_iters)\<close>: the indices in order, stopping at the first exception.\<close>

fun gd_loop ::
  "ndarray \<Rightarrow> ndarray \<Rightarrow> npfloat \<Rightarrow> int \<Rightarrow> nat list \<Rightarrow> ndarray \<times> ndarray \<Rightarrow> error + ndarray \<times> ndarray" where
  "gd_loop X y alpha m [] s = Inr s"
| "gd_loop X y alpha m (i # rest) s =
     (case gd_body X y alpha m i s of
        Inl e \<Rightarrow> Inl e
      | Inr s' \<Rightarrow> gd_loop X y alpha m rest s')"

text \<open>
  \<^verbatim>\<open>np.zeros((num_iters, 1))\<close> raises \<^verbatim>\<open>ValueError\<close> on a negative dimension. After the
  loop the cost values are plotted and \<open>theta\<close> alone is returned.
\<close>

definition gradient_descent ::
  "ndarray \<Rightarrow> ndarray \<Rightarrow> ndarray \<Rightarrow> npfloat \<Rightarrow> int \<Rightarrow> int \<Rightarrow> error + outcome" where
  "gradient_descent X y theta alpha num_iters m =
     (if num_iters < 0 then Inl ValueError
      else
        let j_vals = zeros (nat num_iters) 1
        in (case gd_loop X y alpha m [0..<nat num_iters] (theta, j_vals) of
              Inl e \<Rightarrow> Inl e
            | Inr s \<Rightarrow> Inr \<lparr>returned = fst s, plotted = plot_cost (snd s) []\<rparr>))"

section \<open>The program on a store\<close>

text \<open>
  Arrays are objects: the caller and \<open>gradient_descent\<close> hold references to the same
  \<open>X\<close>, \<open>y\<close> and \<open>theta\<close>. To say what a call does to the caller's arrays, the functions
  are given a second time over a store. A reference is an index into the list of the
  arrays allocated so far; \<open>shown\<close> is the display. A computation takes a store and
  gives back a value or an exception, and the store as it has become, also when it
  raised.

  Every NumPy expression of the source builds a new array (\<open>op1\<close>, \<open>op2\<close>) and the
  assignment \<^verbatim>\<open>theta = theta - ...\<close> binds the name to that new array. The one write into
  an existing array is \<^verbatim>\<open>j_vals[i][0] = ...\<close>. \<^verbatim>\<open>np.transpose\<close> returns a view of its
  argument; nothing is written through the two views of the loop, and they are given
  cells of their own.
\<close>

record store =
  cells :: "ndarray list"
  shown :: "ndarray list"

type_synonym 'a prog = "store \<Rightarrow> (error + 'a) \<times> store"

definition ret :: "'a \<Rightarrow> 'a prog" where
  "ret a s = (Inr a, s)"

definition raise :: "error \<Rightarrow> 'a prog" where
  "raise e s = (Inl e, s)"

definition bind :: "'a prog \<Rightarrow> ('a \<Rightarrow> 'b prog) \<Rightarrow> 'b prog" where
  "bind c f s = (case c s of (Inl e, s') \<Rightarrow> (Inl e, s') | (Inr a, s') \<Rightarrow> f a s')"

definition alloc :: "ndarray \<Rightarrow> nat prog" where
  "alloc a s = (Inr (length (cells s)), s\<lparr>cells := cells s @ [a]\<rparr>)"

definition new :: "error + ndarray \<Rightarrow> nat prog" where
  "new r = (case r of Inl e \<Rightarrow> raise e | Inr a \<Rightarrow> alloc a)"

definition op1 :: "(ndarray \<Rightarrow> ndarray) \<Rightarrow> nat \<Rightarrow> nat prog" where
  "op1 f p s = alloc (f (cells s ! p)) s"

definition op2 :: "(ndarray \<Rightarrow> ndarray \<Rightarrow> error + ndarray) \<Rightarrow> nat \<Rightarrow> nat \<Rightarrow> nat prog" where
  "op2 f p q s = new (f (cells s ! p) (cells s ! q)) s"

definition cost_function_st :: "nat \<Rightarrow> nat \<Rightarrow> nat \<Rightarrow> int \<Rightarrow> pyval prog" where
  "cost_function_st X y theta m =
     bind (op2 matmul X theta) (\<lambda>predictions.
     bind (op2 sub predictions y) (\<lambda>d.
     bind (op1 square d) (\<lambda>sqr_err.
       if 2 * m = 0 then raise ZeroDivisionError
       else (\<lambda>s. ret (py_mul (Fin (1 / real_of_int (2 * m))) (py_sum (cells s ! sqr_err))) s))))"

definition plot_cost_st :: "nat \<Rightarrow> unit prog" where
  "plot_cost_st costs s = (Inr (), s\<lparr>shown := plot_cost (cells s ! costs) (shown s)\<rparr>)"

definition update_theta_st :: "nat \<Rightarrow> nat \<Rightarrow> nat \<Rightarrow> npfloat \<Rightarrow> int \<Rightarrow> nat prog" where
  "update_theta_st X y theta alpha m =
     bind (op2 matmul X theta) (\<lambda>p.
     bind (op2 sub p y) (\<lambda>r.
     bind (op1 transpose_nd r) (\<lambda>difference.
     bind (op2 matmul difference X) (\<lambda>q.
     bind (op1 transpose_nd q) (\<lambda>delta.
       if m = 0 then raise ZeroDivisionError
       else bind (op1 (smul (fdiv alpha (Fin (real_of_int m)))) delta) (\<lambda>scaled.
            op2 sub theta scaled))))))"

text \<open>The write \<^verbatim>\<open>j_vals[i][j] = c\<close> replaces the contents of the cell of \<open>j_vals\<close>.\<close>

definition setitem_st :: "nat \<Rightarrow> nat \<Rightarrow> nat \<Rightarrow> pyval \<Rightarrow> unit prog" where
  "setitem_st j_vals i j c s =
     (case setitem (cells s ! j_vals) i j c of
        Inl e \<Rightarrow> (Inl e, s)
      | Inr J \<Rightarrow> (Inr (), s\<lparr>cells := (cells s)[j_vals := J]\<rparr>))"

text \<open>
  The loop: \<open>theta\<close> is the reference the local name holds at the start of the
  iteration, and the loop gives back the one it holds at the end.
\<close>

fun gd_loop_st :: "nat \<Rightarrow> nat \<Rightarrow> npfloat \<Rightarrow> int \<Rightarrow> nat \<Rightarrow> nat list \<Rightarrow> nat \<Rightarrow> nat prog" where
  "gd_loop_st X y alpha m j_vals [] theta = ret theta"
| "gd_loop_st X y alpha m j_vals (i # rest) theta =
     bind (update_theta_st X y theta alpha m) (\<lambda>theta'.
     bind (cost_function_st X y theta' m) (\<lambda>c.
     bind (setitem_st j_vals i 0 c) (\<lambda>u.
       gd_loop_st X y alpha m j_vals rest theta')))"

definition gradient_descent_st ::
  "nat \<Rightarrow> nat \<Rightarrow> nat \<Rightarrow> npfloat \<Rightarrow> int \<Rightarrow> int \<Rightarrow> nat prog" where
  "gradient_descent_st X y theta alpha num_iters m =
     (if num_iters < 0 then raise ValueError
      else
        bind (alloc (zeros (nat num_iters) 1)) (\<lambda>j_vals.
        bind (gd_loop_st X y alpha m j_vals [0..<nat num_iters] theta) (\<lambda>theta'.
        bind (plot_cost_st j_vals) (\<lambda>u.
          ret theta'))))"

text \<open>
  Two relations between the store before and the store after: \<open>appends\<close>, by which the
  later store has the cells of the earlier one and new cells behind them, and
  \<open>preserved j\<close>, by which every cell of the earlier store other than \<open>j\<close> has kept its
  contents; in both the display is the same.
\<close>

definition appends :: "store \<Rightarrow> store \<Rightarrow> bool" where
  "appends s s' \<longleftrightarrow> shown s' = shown s \<and> (\<exists>t. cells s' = cells s @ t)"

definition preserved :: "nat \<Rightarrow> store \<Rightarrow> store \<Rightarrow> bool" where
  "preserved j s s' \<longleftrightarrow>
     shown s' = shown s \<and> length (cells s) \<le> length (cells s') \<and>
     (\<forall>a<length (cells s). a \<noteq> j \<longrightarrow> cells s' ! a = cells s ! a)"

section \<open>The formulas of the specification\<close>

text \<open>
  The gradient step as the specification writes it, entry by entry: the residual
  \<open>r\<^sub>i = X\<^sub>i \<cdot> theta - y\<^sub>i\<close>, the gradient \<open>g\<^sub>j = \<Sum>\<^sub>i X\<^sub>i\<^sub>j r\<^sub>i\<close>, which is entry \<open>j\<close> of
  \<open>X\<^sup>t (X theta - y)\<close>, and the update \<open>theta\<^sub>j - (alpha / m) g\<^sub>j\<close>. No transposition
  occurs in them.
\<close>

definition spec_residual :: "ndarray \<Rightarrow> ndarray \<Rightarrow> ndarray \<Rightarrow> nat \<Rightarrow> npfloat" where
  "spec_residual X y theta i =
     fsub (fsum (map (\<lambda>k. fmul (el X i k) (el theta k 0)) [0..<ncols X])) (el y i 0)"

definition spec_gradient :: "ndarray \<Rightarrow> ndarray \<Rightarrow> ndarray \<Rightarrow> nat \<Rightarrow> npfloat" where
  "spec_gradient X y theta j =
     fsum (map (\<lambda>i. fmul (el X i j) (spec_residual X y theta i)) [0..<nrows X])"

definition spec_update :: "ndarray \<Rightarrow> ndarray \<Rightarrow> ndarray \<Rightarrow> npfloat \<Rightarrow> int \<Rightarrow> ndarray" where
  "spec_update X y theta alpha m =
     mk (nrows theta) 1
        (\<lambda>j c. fsub (el theta j 0)
                     (fmul (fdiv alpha (Fin (real_of_int m))) (spec_gradient X y theta j)))"


text \<open>
  The entry of the array that \<open>cost_function\<close> returns on arrays of matching shapes, in
  the arithmetic of the elements.
\<close>

definition cost_entry :: "ndarray \<Rightarrow> ndarray \<Rightarrow> ndarray \<Rightarrow> int \<Rightarrow> npfloat" where
  "cost_entry X y theta m =
     fmul (Fin (1 / real_of_int (2 * m)))
          (fsum (map (\<lambda>i. fmul (spec_residual X y theta i) (spec_residual X y theta i))
                     [0..<nrows X]))"

text \<open>The parameter vector after \<open>k\<close> update steps, an exception stopping the steps.\<close>

fun theta_after ::
  "ndarray \<Rightarrow> ndarray \<Rightarrow> npfloat \<Rightarrow> int \<Rightarrow> nat \<Rightarrow> ndarray \<Rightarrow> error + ndarray" where
  "theta_after X y alpha m 0 theta = Inr theta"
| "theta_after X y alpha m (Suc k) theta =
     (case update_theta X y theta alpha m of
        Inl e \<Rightarrow> Inl e
      | Inr theta' \<Rightarrow> theta_after X y alpha m k theta')"

text \<open>
  The mean and the standard deviation of a column in real arithmetic, for arrays whose
  elements are finite.
\<close>

definition spec_mean :: "ndarray \<Rightarrow> nat \<Rightarrow> real" where
  "spec_mean X j = (\<Sum>i<nrows X. val X i j) / real (nrows X)"

definition spec_std :: "ndarray \<Rightarrow> nat \<Rightarrow> real" where
  "spec_std X j = sqrt ((\<Sum>i<nrows X. (val X i j - spec_mean X j)\<^sup>2) / real (nrows X))"

text \<open>
  A small data set for concrete runs: two examples with the column of ones and one
  feature, their labels, and the zero vector \<open>load_data\<close> starts from.
\<close>

abbreviation ex_X :: ndarray where
  "ex_X \<equiv> \<lparr>nrows = 2, ncols = 2, elems = [[Fin 1, Fin 1], [Fin 1, Fin 2]]\<rparr>"

abbreviation ex_y :: ndarray where
  "ex_y \<equiv> \<lparr>nrows = 2, ncols = 1, elems = [[Fin 1], [Fin 2]]\<rparr>"

abbreviation ex_theta :: ndarray where
  "ex_theta \<equiv> \<lparr>nrows = 2, ncols = 1, elems = [[Fin 0], [Fin 0]]\<rparr>"

text \<open>
  Feature matrices before the column of ones is added: one whose two columns vary, one
  whose first column is constant; and a parsed table with one feature column and the
  labels.
\<close>

abbreviation ex_features :: ndarray where
  "ex_features \<equiv> \<lparr>nrows = 2, ncols = 2, elems = [[Fin 1, Fin 2], [Fin 3, Fin 4]]\<rparr>"


abbreviation ex_table :: ndarray where
  "ex_table \<equiv> \<lparr>nrows = 2, ncols = 2, elems = [[Fin 1, Fin 5], [Fin 3, Fin 9]]\<rparr>"

text \<open>A store in which the caller holds \<open>X\<close>, \<open>y\<close> and \<open>theta\<close> at the references 0, 1 and 2.\<close>

abbreviation ex_store :: store where
  "ex_store \<equiv> \<lparr>cells = [ex_X, ex_y, ex_theta], shown = []\<rparr>"

section \<open>Arrays: basic facts\<close>

lemma nrows_mk [simp]: "nrows (mk m n f) = m"
  by (simp add: mk_def)

lemma ncols_mk [simp]: "ncols (mk m n f) = n"
  by (simp add: mk_def)

lemma el_mk [simp]: "i < m \<Longrightarrow> j < n \<Longrightarrow> el (mk m n f) i j = f i j"
  by (simp add: mk_def el_def)

lemma wf_mk [simp]: "wf (mk m n f)"
  by (simp add: wf_def mk_def list_all_iff)

lemma mk_cong: "(\<And>i j. i < m \<Longrightarrow> j < n \<Longrightarrow> f i j = g i j) \<Longrightarrow> mk m n f = mk m n g"
  by (simp add: mk_def)

lemma mk_el: "wf A \<Longrightarrow> mk (nrows A) (ncols A) (el A) = A"
proof -
  assume w: "wf A"
  have "map (\<lambda>i. map (\<lambda>j. elems A ! i ! j) [0..<ncols A]) [0..<nrows A] = elems A"
  proof (rule nth_equalityI)
    show "length (map (\<lambda>i. map (\<lambda>j. elems A ! i ! j) [0..<ncols A]) [0..<nrows A]) = length (elems A)"
      using w by (simp add: wf_def)
  next
    fix i assume "i < length (map (\<lambda>i. map (\<lambda>j. elems A ! i ! j) [0..<ncols A]) [0..<nrows A])"
    then have i: "i < nrows A" by simp
    then have "length (elems A ! i) = ncols A"
      using w by (simp add: wf_def list_all_length)
    then have "map (\<lambda>j. elems A ! i ! j) [0..<ncols A] = elems A ! i"
      by (metis map_nth)
    then show "map (\<lambda>i. map (\<lambda>j. elems A ! i ! j) [0..<ncols A]) [0..<nrows A] ! i = elems A ! i"
      using i by simp
  qed
  moreover have "el A = (\<lambda>i j. elems A ! i ! j)"
    by (simp add: fun_eq_iff el_def)
  ultimately show ?thesis
    by (simp add: mk_def)
qed

lemma fmul_commute: "fmul a b = fmul b a"
  by (cases a; cases b) (simp_all add: mult.commute)

lemma bidx_self [simp]: "i < extent \<Longrightarrow> bidx extent i = i"
  by (auto simp: bidx_def)

lemma broadcast_dim_same [simp]: "broadcast_dim a a = Some a"
  by (simp add: broadcast_dim_def)

lemma sub_same_shape:
  "nrows A = nrows B \<Longrightarrow> ncols A = ncols B \<Longrightarrow>
   sub A B = Inr (mk (nrows A) (ncols A) (\<lambda>i j. fsub (el A i j) (el B i j)))"
  by (simp add: sub_def) (rule mk_cong, simp)

section \<open>The update step\<close>

lemma residual_array:
  assumes "ncols X = nrows theta" "ncols theta = 1" "nrows y = nrows X" "ncols y = 1"
  shows "\<exists>r. matmul X theta = Inr (mk (nrows X) 1 r) \<and>
             sub (mk (nrows X) 1 r) y = Inr (mk (nrows X) 1 (\<lambda>i c. spec_residual X y theta i))"
proof -
  let ?r = "\<lambda>i j. fsum (map (\<lambda>k. fmul (el X i k) (el theta k j)) [0..<ncols X])"
  have 1: "matmul X theta = Inr (mk (nrows X) 1 ?r)"
    using assms by (simp add: matmul_def)
  have 2: "sub (mk (nrows X) 1 ?r) y = Inr (mk (nrows X) 1 (\<lambda>i c. spec_residual X y theta i))"
    using assms by (simp add: sub_same_shape spec_residual_def) (rule mk_cong, simp)
  from 1 2 show ?thesis by blast
qed

lemma delta_array:
  assumes "nrows X = m"
  shows "matmul (transpose_nd (mk m 1 (\<lambda>i c. spec_residual X y theta i))) X
           = Inr (mk 1 (ncols X) (\<lambda>c j. spec_gradient X y theta j))"
proof -
  let ?R = "mk m 1 (\<lambda>i c. spec_residual X y theta i)"
  have "fsum (map (\<lambda>k. fmul (el (transpose_nd ?R) i k) (el X k j)) [0..<m])
          = spec_gradient X y theta j" if "i < 1" for i j
  proof -
    have e: "map (\<lambda>k. fmul (el (transpose_nd ?R) i k) (el X k j)) [0..<m]
            = map (\<lambda>k. fmul (el X k j) (spec_residual X y theta k)) [0..<m]"
      using that by (intro map_cong refl) (simp add: transpose_nd_def fmul_commute)
    show ?thesis
      by (simp only: spec_gradient_def assms e)
  qed
  then have "mk 1 (ncols X) (\<lambda>i j. fsum (map (\<lambda>k. fmul (el (transpose_nd ?R) i k) (el X k j)) [0..<m]))
               = mk 1 (ncols X) (\<lambda>c j. spec_gradient X y theta j)"
    by (intro mk_cong) simp
  then show ?thesis
    using assms by (simp add: matmul_def transpose_nd_def)
qed

lemma update_theta_spec:
  assumes "nrows y = nrows X" "ncols y = 1" "nrows theta = ncols X" "ncols theta = 1" "m \<noteq> 0"
  shows "update_theta X y theta alpha m = Inr (spec_update X y theta alpha m)"
proof -
  obtain r where 1: "matmul X theta = Inr (mk (nrows X) 1 r)"
    and 2: "sub (mk (nrows X) 1 r) y = Inr (mk (nrows X) 1 (\<lambda>i c. spec_residual X y theta i))"
    using residual_array [of X theta y] assms by auto
  have 3: "matmul (transpose_nd (mk (nrows X) 1 (\<lambda>i c. spec_residual X y theta i))) X
             = Inr (mk 1 (ncols X) (\<lambda>c j. spec_gradient X y theta j))"
    by (rule delta_array) simp
  let ?c = "fdiv alpha (Fin (real_of_int m))"
  let ?D = "smul ?c (transpose_nd (mk 1 (ncols X) (\<lambda>c j. spec_gradient X y theta j)))"
  have "sub theta ?D = Inr (mk (ncols X) 1 (\<lambda>i j. fsub (el theta i j) (el ?D i j)))"
    using assms by (simp add: sub_same_shape smul_def transpose_nd_def)
  moreover have "mk (ncols X) 1 (\<lambda>i j. fsub (el theta i j) (el ?D i j)) = spec_update X y theta alpha m"
    unfolding spec_update_def using assms
    by (simp add: smul_def transpose_nd_def) (rule mk_cong, simp)
  ultimately have 4: "sub theta ?D = Inr (spec_update X y theta alpha m)"
    by simp
  show ?thesis
    using assms 1 2 3 4 by (simp add: update_theta_def)
qed


section \<open>The cost\<close>

lemma shape_square [simp]: "nrows (square A) = nrows A" "ncols (square A) = ncols A"
  by (simp_all add: square_def)

lemma column_square:
  "j < ncols A \<Longrightarrow> column (square A) j = map (\<lambda>i. fmul (el A i j) (el A i j)) [0..<nrows A]"
  by (simp add: column_def square_def cong: map_cong)

lemma cost_function_shape:
  assumes "nrows y = nrows X" "ncols y = 1" "nrows theta = ncols X" "ncols theta = 1" "m \<noteq> 0"
  shows "cost_function X y theta m =
           Inr (if nrows X = 0 then Scalar (Fin 0) else Arr1 [cost_entry X y theta m])"
proof -
  obtain r where 1: "matmul X theta = Inr (mk (nrows X) 1 r)"
    and 2: "sub (mk (nrows X) 1 r) y = Inr (mk (nrows X) 1 (\<lambda>i c. spec_residual X y theta i))"
    using residual_array [of X theta y] assms by auto
  let ?R = "mk (nrows X) 1 (\<lambda>i c. spec_residual X y theta i)"
  have col: "column (square ?R) 0
               = map (\<lambda>i. fmul (spec_residual X y theta i) (spec_residual X y theta i)) [0..<nrows X]"
    by (simp add: column_square cong: map_cong)
  have 3: "py_sum (square ?R) =
             (if nrows X = 0 then Scalar (Fin 0)
              else Arr1 [fsum (map (\<lambda>i. fmul (spec_residual X y theta i) (spec_residual X y theta i))
                                   [0..<nrows X])])"
    using col by (simp add: py_sum_def)
  have 4: "cost_function X y theta m
             = Inr (py_mul (Fin (1 / real_of_int (2 * m))) (py_sum (square ?R)))"
    using assms 1 2 by (simp add: cost_function_def)
  show ?thesis
    by (simp only: 4 3) (simp add: cost_entry_def)
qed

lemma foldl_fadd_Fin: "foldl fadd (Fin a) (map Fin xs) = Fin (a + sum_list xs)"
  by (induction xs arbitrary: a) (simp_all add: add.assoc)

lemma fsum_Fin: "fsum (map (\<lambda>i. Fin (f i)) [0..<n]) = Fin (\<Sum>i<n. f i)"
proof -
  have "map (\<lambda>i. Fin (f i)) [0..<n] = map Fin (map f [0..<n])"
    by simp
  then have "fsum (map (\<lambda>i. Fin (f i)) [0..<n]) = Fin (sum_list (map f [0..<n]))"
    by (simp only: fsum_def foldl_fadd_Fin) simp
  also have "sum_list (map f [0..<n]) = (\<Sum>i<n. f i)"
    by (simp add: interv_sum_list_conv_sum_set_nat atLeast0LessThan)
  finally show ?thesis .
qed

lemma el_finite:
  assumes "wf A" "all_finite A" "i < nrows A" "j < ncols A"
  shows "el A i j = Fin (val A i j)"
proof -
  have "elems A ! i \<in> set (elems A)" "length (elems A ! i) = ncols A"
    using assms by (simp_all add: wf_def list_all_length)
  then have "is_finite (elems A ! i ! j)"
    using assms by (simp add: all_finite_def list_all_length wf_def)
  then show ?thesis
    by (cases "elems A ! i ! j") (simp_all add: val_def el_def)
qed




section \<open>The loop of gradient_descent\<close>

lemma shape_spec_update [simp]:
  "nrows (spec_update X y theta alpha m) = nrows theta" "ncols (spec_update X y theta alpha m) = 1"
  by (simp_all add: spec_update_def)

lemma setitem_Inr:
  assumes "setitem J i j c = Inr J'" "wf J"
  shows "i < nrows J \<and> j < ncols J \<and> wf J' \<and> nrows J' = nrows J \<and> ncols J' = ncols J \<and>
         as_scalar c = Some (el J' i j) \<and>
         (\<forall>i' j'. (i', j') \<noteq> (i, j) \<longrightarrow> el J' i' j' = el J i' j')"
proof -
  from assms(1) have ij: "i < nrows J" "j < ncols J"
    by (auto simp: setitem_def split: if_splits)
  with assms(1) obtain v where v: "as_scalar c = Some v"
    and J': "J' = J\<lparr>elems := (elems J)[i := (elems J ! i)[j := v]]\<rparr>"
    by (auto simp: setitem_def split: option.splits)
  have len: "length (elems J) = nrows J" "length (elems J ! i) = ncols J"
    using assms(2) ij by (simp_all add: wf_def list_all_length)
  have "wf J'"
    using assms(2) len ij unfolding J' wf_def list_all_length
    by (auto simp: nth_list_update)
  moreover have "el J' i j = v"
    using ij len by (simp add: J' el_def)
  moreover have "el J' i' j' = el J i' j'" if "(i', j') \<noteq> (i, j)" for i' j'
    using that ij len by (auto simp: J' el_def nth_list_update)
  ultimately show ?thesis
    using ij v by (simp add: J')
qed

lemma upt_step: "[a..<a + Suc k] = a # [Suc a..<Suc a + k]"
  by (simp add: upt_conv_Cons)

lemma gd_loop_history:
  assumes "gd_loop X y alpha m [a..<a + k] (theta, J) = Inr (theta', J')" "wf J"
  shows "theta_after X y alpha m k theta = Inr theta' \<and>
         wf J' \<and> nrows J' = nrows J \<and> ncols J' = ncols J \<and> (0 < k \<longrightarrow> a + k \<le> nrows J) \<and>
         (\<forall>i. a \<le> i \<and> i < a + k \<longrightarrow>
            (\<exists>th c. theta_after X y alpha m (Suc (i - a)) theta = Inr th \<and>
                    cost_function X y th m = Inr c \<and> as_scalar c = Some (el J' i 0))) \<and>
         (\<forall>i j. \<not> (a \<le> i \<and> i < a + k \<and> j = 0) \<longrightarrow> el J' i j = el J i j)"
  using assms
proof (induction k arbitrary: a theta J)
  case 0
  then show ?case by auto
next
  case (Suc k)
  have "gd_loop X y alpha m (a # [Suc a..<Suc a + k]) (theta, J) = Inr (theta', J')"
    using Suc.prems(1) by (simp only: upt_step)
  then obtain th1 J1 where
    body: "gd_body X y alpha m a (theta, J) = Inr (th1, J1)"
    and rest: "gd_loop X y alpha m [Suc a..<Suc a + k] (th1, J1) = Inr (theta', J')"
    by (cases "gd_body X y alpha m a (theta, J)") (auto simp del: upt_Suc)
  from body obtain c where
    up: "update_theta X y theta alpha m = Inr th1"
    and co: "cost_function X y th1 m = Inr c"
    and st: "setitem J a 0 c = Inr J1"
    by (auto simp: gd_body_def split: sum.splits)
  note s = setitem_Inr [OF st Suc.prems(2)]
  have wf1: "wf J1" using s by simp
  note ih = Suc.IH [OF rest wf1]
  have ta: "theta_after X y alpha m (Suc n) theta = theta_after X y alpha m n th1" for n
    using up by simp
  have keep: "el J' a 0 = el J1 a 0"
    using ih by simp
  have hist: "\<exists>th c. theta_after X y alpha m (Suc (i - a)) theta = Inr th \<and>
                    cost_function X y th m = Inr c \<and> as_scalar c = Some (el J' i 0)"
    if "a \<le> i" "i < a + Suc k" for i
  proof (cases "i = a")
    case True
    then show ?thesis
      using up co s keep by auto
  next
    case False
    with that have r: "Suc a \<le> i" "i < Suc a + k" by simp_all
    then obtain th c where "theta_after X y alpha m (Suc (i - Suc a)) th1 = Inr th"
      "cost_function X y th m = Inr c" "as_scalar c = Some (el J' i 0)"
      using ih by blast
    moreover have "Suc (i - a) = Suc (Suc (i - Suc a))"
      using r by simp
    ultimately show ?thesis
      using ta by (metis)
  qed
  have frame: "el J' i j = el J i j" if "\<not> (a \<le> i \<and> i < a + Suc k \<and> j = 0)" for i j
  proof -
    have "el J' i j = el J1 i j" using ih that by auto
    moreover have "(i, j) \<noteq> (a, 0)" using that by auto
    ultimately show ?thesis using s by simp
  qed
  have bound: "a + Suc k \<le> nrows J"
  proof (cases k)
    case 0
    then show ?thesis using s by simp
  next
    case (Suc k')
    then show ?thesis using ih s by simp
  qed
  show ?case
    using ih s ta hist frame bound by simp
qed


lemma setitem_shape:
  "setitem J i j c = Inr J' \<Longrightarrow> nrows J' = nrows J \<and> ncols J' = ncols J"
  by (auto simp: setitem_def split: if_splits option.splits)

lemma gd_body_succeeds:
  assumes "nrows y = nrows X" "ncols y = 1" "nrows theta = ncols X" "ncols theta = 1" "m \<noteq> 0"
      and "i < nrows J" "0 < ncols J"
  shows "\<exists>J'. gd_body X y alpha m i (theta, J) = Inr (spec_update X y theta alpha m, J')"
proof -
  let ?t = "spec_update X y theta alpha m"
  have up: "update_theta X y theta alpha m = Inr ?t"
    using assms by (simp add: update_theta_spec)
  have "cost_function X y ?t m =
          Inr (if nrows X = 0 then Scalar (Fin 0) else Arr1 [cost_entry X y ?t m])"
    using assms by (intro cost_function_shape) simp_all
  then obtain c v where co: "cost_function X y ?t m = Inr c" and v: "as_scalar c = Some v"
    by (cases "nrows X = 0") simp_all
  have "\<exists>J'. setitem J i 0 c = Inr J'"
    using assms v by (simp add: setitem_def)
  then show ?thesis
    using up co by (auto simp: gd_body_def)
qed

lemma gd_loop_succeeds:
  assumes "nrows y = nrows X" "ncols y = 1" "nrows theta = ncols X" "ncols theta = 1" "m \<noteq> 0"
      and "a + k \<le> nrows J" "0 < ncols J"
  shows "\<exists>s. gd_loop X y alpha m [a..<a + k] (theta, J) = Inr s"
  using assms
proof (induction k arbitrary: a theta J)
  case 0
  then show ?case by simp
next
  case (Suc k)
  then obtain J1 where
    body: "gd_body X y alpha m a (theta, J) = Inr (spec_update X y theta alpha m, J1)"
    using gd_body_succeeds [of y X theta m a J alpha] by auto
  from body obtain c where "setitem J a 0 c = Inr J1"
    by (auto simp: gd_body_def split: sum.splits)
  then have sh: "nrows J1 = nrows J" "ncols J1 = ncols J"
    by (simp_all add: setitem_shape)
  have "\<exists>s. gd_loop X y alpha m [Suc a..<Suc a + k] (spec_update X y theta alpha m, J1) = Inr s"
    using Suc.prems sh by (intro Suc.IH) simp_all
  then show ?case
    using body by (simp only: upt_step) simp
qed

lemma gradient_descent_Inr:
  assumes "gradient_descent X y theta alpha N m = Inr out"
  shows "0 \<le> N \<and> theta_after X y alpha m (nat N) theta = Inr (returned out) \<and>
         (\<exists>J. plotted out = [J] \<and> wf J \<and> nrows J = nat N \<and> ncols J = 1 \<and>
              (\<forall>i<nat N. \<exists>th c. theta_after X y alpha m (Suc i) theta = Inr th \<and>
                                 cost_function X y th m = Inr c \<and>
                                 as_scalar c = Some (el J i 0)))"
proof -
  from assms have N: "0 \<le> N"
    by (auto simp: gradient_descent_def split: if_splits)
  with assms obtain th J where
    loop: "gd_loop X y alpha m [0..<0 + nat N] (theta, zeros (nat N) 1) = Inr (th, J)"
    and out: "out = \<lparr>returned = th, plotted = [J]\<rparr>"
    by (auto simp: gradient_descent_def plot_cost_def split: sum.splits)
  have "wf (zeros (nat N) 1)"
    by (simp add: zeros_def)
  note h = gd_loop_history [OF loop this]
  have "\<exists>th c. theta_after X y alpha m (Suc i) theta = Inr th \<and>
               cost_function X y th m = Inr c \<and> as_scalar c = Some (el J i 0)"
    if "i < nat N" for i
    using h that by (metis add_0 diff_zero le0)
  then show ?thesis
    using N h out by (simp add: zeros_def)
qed

lemma gradient_descent_succeeds:
  assumes "nrows y = nrows X" "ncols y = 1" "nrows theta = ncols X" "ncols theta = 1" "m \<noteq> 0"
      and "0 \<le> N"
  shows "\<exists>out. gradient_descent X y theta alpha N m = Inr out"
proof -
  have "\<exists>s. gd_loop X y alpha m [0..<0 + nat N] (theta, zeros (nat N) 1) = Inr s"
    using assms by (intro gd_loop_succeeds) (simp_all add: zeros_def)
  then show ?thesis
    using assms by (auto simp: gradient_descent_def)
qed

lemma update_theta_zero_m:
  assumes "nrows y = nrows X" "ncols y = 1" "nrows theta = ncols X" "ncols theta = 1"
  shows "update_theta X y theta alpha 0 = Inl ZeroDivisionError"
proof -
  obtain r where 1: "matmul X theta = Inr (mk (nrows X) 1 r)"
    and 2: "sub (mk (nrows X) 1 r) y = Inr (mk (nrows X) 1 (\<lambda>i c. spec_residual X y theta i))"
    using residual_array [of X theta y] assms by auto
  have 3: "matmul (transpose_nd (mk (nrows X) 1 (\<lambda>i c. spec_residual X y theta i))) X
             = Inr (mk 1 (ncols X) (\<lambda>c j. spec_gradient X y theta j))"
    by (rule delta_array) simp
  show ?thesis
    using 1 2 3 by (simp add: update_theta_def)
qed

lemma gradient_descent_zero_m:
  assumes "nrows y = nrows X" "ncols y = 1" "nrows theta = ncols X" "ncols theta = 1"
      and "0 < num_iters"
  shows "gradient_descent X y theta alpha num_iters 0 = Inl ZeroDivisionError"
proof -
  obtain k where k: "nat num_iters = Suc k"
    using assms(5) by (cases "nat num_iters") simp_all
  have "[0..<nat num_iters] = 0 # [Suc 0..<Suc k]"
    by (simp add: k upt_conv_Cons)
  moreover have "gd_body X y alpha 0 0 (theta, J) = Inl ZeroDivisionError" for J
    using assms by (simp add: gd_body_def update_theta_zero_m)
  ultimately show ?thesis
    using assms(5) by (simp add: gradient_descent_def)
qed

section \<open>normalize\<close>


lemma shape_normalize [simp]:
  "nrows (normalize X) = nrows X" "ncols (normalize X) = ncols X" "wf (normalize X)"
  by (simp_all add: normalize_def Let_def)

lemma el_normalize:
  "i < nrows X \<Longrightarrow> j < ncols X \<Longrightarrow>
   el (normalize X) i j = fdiv (fsub (el X i j) (mean_of (column X j))) (std_of (column X j))"
  by (simp add: normalize_def Let_def mean_axis0_def std_axis0_def)

lemma column_finite:
  assumes "wf X" "all_finite X" "j < ncols X"
  shows "column X j = map (\<lambda>i. Fin (val X i j)) [0..<nrows X]"
  unfolding column_def using assms by (intro map_cong refl) (simp add: el_finite)

lemma mean_of_Fin:
  assumes "0 < m"
  shows "mean_of (map (\<lambda>i. Fin (f i)) [0..<m]) = Fin ((\<Sum>i<m. f i) / real m)"
  using assms by (simp add: mean_of_def fsum_Fin)

lemma std_of_Fin:
  assumes "0 < m"
  shows "std_of (map (\<lambda>i. Fin (f i)) [0..<m])
           = Fin (sqrt ((\<Sum>i<m. (f i - (\<Sum>i<m. f i) / real m)\<^sup>2) / real m))"
proof -
  let ?mu = "(\<Sum>i<m. f i) / real m"
  have 1: "map (\<lambda>d. fmul d d) (map (\<lambda>a. fsub a (Fin ?mu)) (map (\<lambda>i. Fin (f i)) [0..<m]))
             = map (\<lambda>i. Fin ((f i - ?mu)\<^sup>2)) [0..<m]"
    by (simp add: fsub_def power2_eq_square)
  have 2: "0 \<le> (\<Sum>i<m. (f i - ?mu)\<^sup>2) / real m"
    by (simp add: sum_nonneg)
  have "std_of (map (\<lambda>i. Fin (f i)) [0..<m])
          = fsqrt (fdiv (fsum (map (\<lambda>i. Fin ((f i - ?mu)\<^sup>2)) [0..<m])) (Fin (real m)))"
    unfolding std_of_def Let_def mean_of_Fin [OF assms] 1 by simp
  also have "\<dots> = Fin (sqrt ((\<Sum>i<m. (f i - ?mu)\<^sup>2) / real m))"
    using assms 2 unfolding fsum_Fin by simp
  finally show ?thesis .
qed

lemma mean_column:
  assumes "wf X" "all_finite X" "j < ncols X" "0 < nrows X"
  shows "mean_of (column X j) = Fin (spec_mean X j)"
  using assms by (simp add: column_finite mean_of_Fin spec_mean_def)

lemma std_column:
  assumes "wf X" "all_finite X" "j < ncols X" "0 < nrows X"
  shows "std_of (column X j) = Fin (spec_std X j)"
  using assms by (simp add: column_finite std_of_Fin spec_std_def spec_mean_def)

lemma el_normalize_finite:
  assumes "wf X" "all_finite X" "i < nrows X" "j < ncols X" "spec_std X j \<noteq> 0"
  shows "el (normalize X) i j = Fin ((val X i j - spec_mean X j) / spec_std X j)"
proof -
  have "0 < nrows X" using assms by simp
  then show ?thesis
    using assms by (simp add: el_normalize mean_column std_column el_finite fsub_def)
qed

lemma normalized_sum_zero:
  fixes f :: "nat \<Rightarrow> real"
  assumes "0 < m"
  shows "(\<Sum>i<m. (f i - (\<Sum>i<m. f i) / real m) / s) = 0"
proof -
  have "(\<Sum>i<m. (f i - (\<Sum>i<m. f i) / real m) / s)
          = ((\<Sum>i<m. f i) - real m * ((\<Sum>i<m. f i) / real m)) / s"
    by (simp add: sum_divide_distrib [symmetric] sum_subtractf)
  also have "\<dots> = 0"
    using assms by simp
  finally show ?thesis .
qed

lemma normalized_column:
  assumes "wf X" "all_finite X" "j < ncols X" "0 < nrows X" "spec_std X j \<noteq> 0"
  shows "mean_of (column (normalize X) j) = Fin 0 \<and> std_of (column (normalize X) j) = Fin 1"
proof -
  let ?m = "nrows X"
  let ?mu = "spec_mean X j"
  let ?s = "spec_std X j"
  let ?g = "\<lambda>i. (val X i j - ?mu) / ?s"
  let ?v = "(\<Sum>i<?m. (val X i j - ?mu)\<^sup>2) / real ?m"
  have col: "column (normalize X) j = map (\<lambda>i. Fin (?g i)) [0..<?m]"
    unfolding column_def using assms
    by (simp add: el_normalize_finite cong: map_cong)
  have s0: "(\<Sum>i<?m. ?g i) = 0"
    unfolding spec_mean_def using assms(4) by (rule normalized_sum_zero)
  have mean: "mean_of (column (normalize X) j) = Fin 0"
    using assms(4) by (simp only: col mean_of_Fin s0) simp
  have v: "0 \<le> ?v" by (simp add: sum_nonneg)
  have s2: "?s\<^sup>2 = ?v"
    unfolding spec_std_def using v by simp
  have "(\<Sum>i<?m. (?g i - (\<Sum>i<?m. ?g i) / real ?m)\<^sup>2) / real ?m
          = (\<Sum>i<?m. (val X i j - ?mu)\<^sup>2 / ?s\<^sup>2) / real ?m"
    by (simp only: s0) (simp add: power_divide)
  also have "\<dots> = ?v / ?s\<^sup>2"
    by (simp add: sum_divide_distrib [symmetric])
  also have "\<dots> = ?s\<^sup>2 / ?s\<^sup>2"
    by (simp only: s2)
  also have "\<dots> = 1"
    using assms(5) by simp
  finally have "std_of (column (normalize X) j) = Fin (sqrt 1)"
    using assms(4) by (simp only: col std_of_Fin)
  then show ?thesis
    using mean by simp
qed

text \<open>
  A column of equal finite values has variance 0 in exact arithmetic, and the standard
  deviation computed for it is 0.
\<close>

lemma constant_column_std:
  assumes "wf X" "all_finite X" "j < ncols X" "0 < nrows X"
      and "\<And>i. i < nrows X \<Longrightarrow> val X i j = c"
  shows "std_axis0 X ! j = Fin 0"
proof -
  have m: "spec_mean X j = c"
    using assms(4,5) by (simp add: spec_mean_def)
  have "spec_std X j = 0"
    using assms(5) by (simp add: spec_std_def m)
  then have "std_of (column X j) = Fin 0"
    using assms by (simp add: std_column)
  then show ?thesis
    using assms(3) by (simp add: std_axis0_def)
qed

lemma upt_0_2: "[0..<2] = [0, Suc 0]"
  by (simp add: numeral_2_eq_2)

lemma upt_0_1: "[0..<1] = [0]"
  by simp

lemma lessThan_2: "{..<2::nat} = {0, Suc 0}"
  by (auto simp: numeral_2_eq_2)

lemma ex_features_stats:
  "spec_mean ex_features 0 = 2" "spec_mean ex_features (Suc 0) = 3"
  "spec_std ex_features 0 = 1" "spec_std ex_features (Suc 0) = 1"
  by (simp_all add: spec_std_def spec_mean_def val_def el_def lessThan_2)

text \<open>
  Called on one column, \<open>normalize\<close> rescales it like any other: that a data set with one
  feature keeps its values is the work of the test in \<open>load_data\<close>.
\<close>

lemma normalize_one_column_example:
  "normalize \<lparr>nrows = 2, ncols = 1, elems = [[Fin 1], [Fin 3]]\<rparr>
     = \<lparr>nrows = 2, ncols = 1, elems = [[Fin (- 1)], [Fin 1]]\<rparr>"
proof -
  let ?X = "\<lparr>nrows = 2, ncols = 1, elems = [[Fin 1], [Fin 3]]\<rparr>"
  have c: "column ?X 0 = [Fin 1, Fin 3]"
    by (simp add: column_def el_def upt_0_2)
  have m: "mean_of [Fin 1, Fin 3] = Fin 2"
    by (simp add: mean_of_def fsum_def)
  have s: "std_of [Fin 1, Fin 3] = Fin 1"
    by (simp add: std_of_def m fsub_def fsum_def)
  show ?thesis
    by (simp add: normalize_def mean_axis0_def std_axis0_def c m s mk_def el_def fsub_def
        upt_0_2 upt_0_1 del: One_nat_def)
qed

section \<open>The store: what a call leaves alone\<close>

lemma appends_refl [simp]: "appends s s"
  by (simp add: appends_def)

lemma appends_trans: "appends s s' \<Longrightarrow> appends s' s'' \<Longrightarrow> appends s s''"
  by (auto simp: appends_def)

lemma appends_nth: "appends s s' \<Longrightarrow> p < length (cells s) \<Longrightarrow> cells s' ! p = cells s ! p"
  by (auto simp: appends_def nth_append)

lemma appends_length: "appends s s' \<Longrightarrow> length (cells s) \<le> length (cells s')"
  by (auto simp: appends_def)

lemma op1_run:
  "op1 f p s = (Inr (length (cells s)), s\<lparr>cells := cells s @ [f (cells s ! p)]\<rparr>)"
  by (simp add: op1_def alloc_def)

lemma op2_run:
  "op2 f p q s =
     (case f (cells s ! p) (cells s ! q) of
        Inl e \<Rightarrow> (Inl e, s)
      | Inr a \<Rightarrow> (Inr (length (cells s)), s\<lparr>cells := cells s @ [a]\<rparr>))"
  by (simp add: op2_def new_def alloc_def raise_def split: sum.splits)

lemma update_theta_st_refines:
  assumes "X < length (cells s)" "y < length (cells s)" "theta < length (cells s)"
      and "update_theta_st X y theta alpha m s = (r, s')"
  shows "appends s s' \<and>
         (case update_theta (cells s ! X) (cells s ! y) (cells s ! theta) alpha m of
            Inl e \<Rightarrow> r = Inl e
          | Inr th \<Rightarrow> \<exists>p. r = Inr p \<and> length (cells s) \<le> p \<and> p < length (cells s') \<and>
                       cells s' ! p = th)"
  using assms
  by (auto simp: update_theta_st_def update_theta_def bind_def op1_run op2_run raise_def
        nth_append appends_def Let_def split: sum.splits)

lemma cost_function_st_refines:
  assumes "X < length (cells s)" "y < length (cells s)" "theta < length (cells s)"
      and "cost_function_st X y theta m s = (r, s')"
  shows "appends s s' \<and> r = cost_function (cells s ! X) (cells s ! y) (cells s ! theta) m"
  using assms
  by (auto simp: cost_function_st_def cost_function_def bind_def op1_run op2_run raise_def
        ret_def nth_append appends_def Let_def split: sum.splits)

lemma preserved_refl [simp]: "preserved j s s"
  by (simp add: preserved_def)

lemma preserved_trans: "preserved j s s' \<Longrightarrow> preserved j s' s'' \<Longrightarrow> preserved j s s''"
  by (auto simp: preserved_def)

lemma appends_preserved: "appends s s' \<Longrightarrow> preserved j s s'"
  by (auto simp: preserved_def appends_def nth_append)

lemma setitem_st_run:
  assumes "j < length (cells s)" "setitem_st j i k c s = (r, s')"
  shows "preserved j s s' \<and>
         (case setitem (cells s ! j) i k c of
            Inl e \<Rightarrow> r = Inl e
          | Inr J \<Rightarrow> r = Inr () \<and> length (cells s') = length (cells s) \<and> cells s' ! j = J)"
  using assms by (auto simp: setitem_st_def preserved_def split: sum.splits)

lemma gd_loop_st_refines:
  assumes "X < length (cells s)" "y < length (cells s)" "theta < length (cells s)"
      and "j < length (cells s)" "j \<noteq> X" "j \<noteq> y" "j \<noteq> theta"
  shows "preserved j s (snd (gd_loop_st X y alpha m j idx theta s)) \<and>
     (case gd_loop (cells s ! X) (cells s ! y) alpha m idx (cells s ! theta, cells s ! j) of
        Inl e \<Rightarrow> fst (gd_loop_st X y alpha m j idx theta s) = Inl e
      | Inr res \<Rightarrow>
          \<exists>p. fst (gd_loop_st X y alpha m j idx theta s) = Inr p \<and>
              p < length (cells (snd (gd_loop_st X y alpha m j idx theta s))) \<and> p \<noteq> j \<and>
              cells (snd (gd_loop_st X y alpha m j idx theta s)) ! p = fst res \<and>
              cells (snd (gd_loop_st X y alpha m j idx theta s)) ! j = snd res \<and>
              (if idx = [] then p = theta else length (cells s) \<le> p))"
  using assms
proof (induction idx arbitrary: theta s)
  case Nil
  then show ?case by (simp add: ret_def)
next
  case (Cons i rest)
  let ?Xv = "cells s ! X" and ?yv = "cells s ! y" and ?tv = "cells s ! theta" and ?Jv = "cells s ! j"
  let ?u = "update_theta_st X y theta alpha m s"
  obtain r1 s1 where u: "?u = (r1, s1)" by (cases ?u)
  have a1: "appends s s1"
    and u1: "case update_theta ?Xv ?yv ?tv alpha m of
               Inl e \<Rightarrow> r1 = Inl e
             | Inr th \<Rightarrow> \<exists>p. r1 = Inr p \<and> length (cells s) \<le> p \<and> p < length (cells s1) \<and>
                           cells s1 ! p = th"
    using update_theta_st_refines [OF Cons.prems(1-3) u] by simp_all
  show ?case
  proof (cases "update_theta ?Xv ?yv ?tv alpha m")
    case (Inl e)
    then have "r1 = Inl e" using u1 by simp
    then have "gd_loop_st X y alpha m j (i # rest) theta s = (Inl e, s1)"
      by (simp add: bind_def u)
    then show ?thesis
      using Inl a1 by (simp add: gd_body_def appends_preserved)
  next
    case (Inr th)
    then obtain p1 where p1: "r1 = Inr p1" "length (cells s) \<le> p1" "p1 < length (cells s1)"
      "cells s1 ! p1 = th"
      using u1 by auto
    have k1: "cells s1 ! X = ?Xv" "cells s1 ! y = ?yv" "cells s1 ! j = ?Jv"
      using a1 Cons.prems by (simp_all add: appends_nth)
    have l1: "X < length (cells s1)" "y < length (cells s1)" "j < length (cells s1)"
      using appends_length [OF a1] Cons.prems by simp_all
    let ?c = "cost_function_st X y p1 m s1"
    obtain r2 s2 where c: "?c = (r2, s2)" by (cases ?c)
    have a2: "appends s1 s2" and c2: "r2 = cost_function ?Xv ?yv th m"
      using cost_function_st_refines [OF l1(1,2) p1(3) c] k1 p1 by simp_all
    have a12: "appends s s2" using a1 a2 by (rule appends_trans)
    show ?thesis
    proof (cases "cost_function ?Xv ?yv th m")
      case (Inl e)
      then have "gd_loop_st X y alpha m j (i # rest) theta s = (Inl e, s2)"
        using c2 by (simp add: bind_def u p1 c)
      then show ?thesis
        using Inl Inr a12 by (simp add: gd_body_def appends_preserved)
    next
      case cv: (Inr cval)
      have k2: "cells s2 ! X = ?Xv" "cells s2 ! y = ?yv" "cells s2 ! j = ?Jv" "cells s2 ! p1 = th"
        using a2 l1 k1 p1 by (simp_all add: appends_nth)
      have l2: "X < length (cells s2)" "y < length (cells s2)" "j < length (cells s2)"
        "p1 < length (cells s2)"
        using appends_length [OF a2] l1 p1 by simp_all
      let ?w = "setitem_st j i 0 cval s2"
      obtain r3 s3 where w: "?w = (r3, s3)" by (cases ?w)
      have pr3: "preserved j s2 s3"
        and w3: "case setitem ?Jv i 0 cval of
                   Inl e \<Rightarrow> r3 = Inl e
                 | Inr J \<Rightarrow> r3 = Inr () \<and> length (cells s3) = length (cells s2) \<and>
                            cells s3 ! j = J"
        using setitem_st_run [OF l2(3) w] k2 by simp_all
      have pr: "preserved j s s3"
        using appends_preserved [OF a12] pr3 by (rule preserved_trans)
      show ?thesis
      proof (cases "setitem ?Jv i 0 cval")
        case (Inl e)
        then have "gd_loop_st X y alpha m j (i # rest) theta s = (Inl e, s3)"
          using w3 c2 cv by (simp add: bind_def u p1 c w)
        then show ?thesis
          using Inl Inr cv pr by (simp add: gd_body_def)
      next
        case sv: (Inr J1)
        then have r3: "r3 = Inr ()" "length (cells s3) = length (cells s2)" "cells s3 ! j = J1"
          using w3 by simp_all
        have jp: "j \<noteq> p1" using p1 Cons.prems by simp
        have k3: "cells s3 ! X = ?Xv" "cells s3 ! y = ?yv" "cells s3 ! p1 = th"
          using pr3 l2 k2 Cons.prems jp by (auto simp: preserved_def)
        have l3: "X < length (cells s3)" "y < length (cells s3)" "p1 < length (cells s3)"
          "j < length (cells s3)"
          using l2 r3 by simp_all
        have step: "gd_loop_st X y alpha m j (i # rest) theta s
                      = gd_loop_st X y alpha m j rest p1 s3"
          using c2 cv r3 by (simp add: bind_def u p1 c w)
        have pure: "gd_loop ?Xv ?yv alpha m (i # rest) (?tv, ?Jv)
                      = gd_loop ?Xv ?yv alpha m rest (th, J1)"
          using Inr cv sv by (simp add: gd_body_def)
        note ih = Cons.IH [OF l3(1,2,3,4) Cons.prems(5,6) jp, unfolded k3 r3(3)]
        have len: "length (cells s) \<le> length (cells s3)"
          using pr by (simp add: preserved_def)
        have "preserved j s (snd (gd_loop_st X y alpha m j rest p1 s3))"
          using pr ih by (blast intro: preserved_trans)
        moreover have "case gd_loop ?Xv ?yv alpha m rest (th, J1) of
            Inl e \<Rightarrow> fst (gd_loop_st X y alpha m j rest p1 s3) = Inl e
          | Inr res \<Rightarrow>
              \<exists>p. fst (gd_loop_st X y alpha m j rest p1 s3) = Inr p \<and>
                  p < length (cells (snd (gd_loop_st X y alpha m j rest p1 s3))) \<and> p \<noteq> j \<and>
                  cells (snd (gd_loop_st X y alpha m j rest p1 s3)) ! p = fst res \<and>
                  cells (snd (gd_loop_st X y alpha m j rest p1 s3)) ! j = snd res \<and>
                  length (cells s) \<le> p"
          using ih p1(2) len by (auto split: sum.splits if_splits)
        ultimately show ?thesis
          by (simp only: step pure) (auto split: sum.splits)
      qed
    qed
  qed
qed

section \<open>The claims\<close>

text \<open>
  C1. For a design matrix \<open>X\<close> of shape \<open>(m, n)\<close>, labels \<open>y\<close> of shape \<open>(m, 1)\<close>, parameters
  \<open>theta\<close> of shape \<open>(n, 1)\<close> and \<open>m \<ge> 1\<close>, the update of one iteration of
  \<open>gradient_descent\<close>, which transposes \<open>X theta - y\<close>, multiplies by \<open>X\<close> and transposes
  again, is \<open>theta - (alpha / m) X\<^sup>t (X theta - y)\<close>, the direct gradient step
  \<open>spec_update\<close>; a call with one iteration returns it.
\<close>

theorem gradient_step_direct:
  assumes "nrows X = m" "ncols X = n" "nrows y = m" "ncols y = 1"
      and "nrows theta = n" "ncols theta = 1" "1 \<le> m"
  shows "update_theta X y theta alpha (int m) = Inr (spec_update X y theta alpha (int m)) \<and>
         (\<exists>out. gradient_descent X y theta alpha 1 (int m) = Inr out \<and>
                returned out = spec_update X y theta alpha (int m))"
proof -
  have up: "update_theta X y theta alpha (int m) = Inr (spec_update X y theta alpha (int m))"
    using assms by (intro update_theta_spec) simp_all
  obtain out where out: "gradient_descent X y theta alpha 1 (int m) = Inr out"
    using gradient_descent_succeeds [of y X theta "int m" 1 alpha] assms by auto
  have "theta_after X y alpha (int m) (nat 1) theta = Inr (returned out)"
    using gradient_descent_Inr [OF out] by blast
  then have "returned out = spec_update X y theta alpha (int m)"
    using up by simp
  then show ?thesis
    using up out by simp
qed

theorem gradient_step_direct_witness:
  "nrows ex_X = 2 \<and> ncols ex_X = 2 \<and> nrows ex_y = 2 \<and> ncols ex_y = 1 \<and>
   nrows ex_theta = 2 \<and> ncols ex_theta = 1 \<and> (1::nat) \<le> 2 \<and>
   update_theta ex_X ex_y ex_theta (Fin 1) (int 2)
     = Inr (spec_update ex_X ex_y ex_theta (Fin 1) (int 2)) \<and>
   spec_update ex_X ex_y ex_theta (Fin 1) (int 2)
     = \<lparr>nrows = 2, ncols = 1, elems = [[Fin (3 / 2)], [Fin (5 / 2)]]\<rparr>"
proof -
  have s: "spec_update ex_X ex_y ex_theta (Fin 1) (int 2)
             = \<lparr>nrows = 2, ncols = 1, elems = [[Fin (3 / 2)], [Fin (5 / 2)]]\<rparr>"
    by code_simp
  have "update_theta ex_X ex_y ex_theta (Fin 1) (int 2)
          = Inr (spec_update ex_X ex_y ex_theta (Fin 1) (int 2))"
    using gradient_step_direct [of ex_X 2 2 ex_y ex_theta "Fin 1"] by simp
  then show ?thesis
    using s by simp
qed



text \<open>
  C3. A run of \<open>gradient_descent\<close> with \<open>num_iters \<ge> 0\<close> on arrays of matching shapes
  completes, and its cost history, the array \<open>j_vals\<close> it plots, has exactly \<open>num_iters\<close>
  rows; row \<open>i\<close> holds the value of \<open>cost_function\<close> at the \<open>theta\<close> produced by update step
  \<open>i + 1\<close>, the cost being evaluated after the update of the same iteration.
\<close>

theorem cost_history_entries:
  assumes "nrows y = nrows X" "ncols y = 1" "nrows theta = ncols X" "ncols theta = 1"
      and "m \<noteq> 0" "0 \<le> num_iters"
  shows "\<exists>out J. gradient_descent X y theta alpha num_iters m = Inr out \<and>
           plotted out = [J] \<and> wf J \<and> nrows J = nat num_iters \<and> ncols J = 1 \<and>
           (\<forall>i<nat num_iters.
              \<exists>th c. theta_after X y alpha m (Suc i) theta = Inr th \<and>
                     cost_function X y th m = Inr c \<and> as_scalar c = Some (el J i 0))"
proof -
  obtain out where out: "gradient_descent X y theta alpha num_iters m = Inr out"
    using gradient_descent_succeeds [OF assms] by blast
  from gradient_descent_Inr [OF out] show ?thesis
    using out by blast
qed

theorem cost_history_entries_witness:
  "nrows ex_y = nrows ex_X \<and> ncols ex_y = 1 \<and> nrows ex_theta = ncols ex_X \<and> ncols ex_theta = 1 \<and>
   (2::int) \<noteq> 0 \<and> (0::int) \<le> 2 \<and>
   (\<exists>out J. gradient_descent ex_X ex_y ex_theta (Fin 1) 2 2 = Inr out \<and>
      plotted out = [J] \<and> wf J \<and> nrows J = nat 2 \<and> ncols J = 1 \<and>
      (\<forall>i<nat 2.
         \<exists>th c. theta_after ex_X ex_y (Fin 1) 2 (Suc i) ex_theta = Inr th \<and>
                cost_function ex_X ex_y th 2 = Inr c \<and> as_scalar c = Some (el J i 0))) \<and>
   gradient_descent ex_X ex_y ex_theta (Fin 1) 2 2
     = Inr \<lparr>returned = \<lparr>nrows = 2, ncols = 1, elems = [[Fin (- (9 / 4))], [Fin (- (7 / 2))]]\<rparr>,
            plotted = [\<lparr>nrows = 2, ncols = 1, elems = [[Fin (117 / 16)], [Fin (1377 / 32)]]\<rparr>]\<rparr>"
proof -
  have run: "gradient_descent ex_X ex_y ex_theta (Fin 1) 2 2
     = Inr \<lparr>returned = \<lparr>nrows = 2, ncols = 1, elems = [[Fin (- (9 / 4))], [Fin (- (7 / 2))]]\<rparr>,
            plotted = [\<lparr>nrows = 2, ncols = 1, elems = [[Fin (117 / 16)], [Fin (1377 / 32)]]\<rparr>]\<rparr>"
    by code_simp
  have "\<exists>out J. gradient_descent ex_X ex_y ex_theta (Fin 1) 2 2 = Inr out \<and>
      plotted out = [J] \<and> wf J \<and> nrows J = nat 2 \<and> ncols J = 1 \<and>
      (\<forall>i<nat 2.
         \<exists>th c. theta_after ex_X ex_y (Fin 1) 2 (Suc i) ex_theta = Inr th \<and>
                cost_function ex_X ex_y th 2 = Inr c \<and> as_scalar c = Some (el J i 0))"
    by (rule cost_history_entries) simp_all
  then show ?thesis
    using run by simp
qed

text \<open>
  C4. The claim is that \<open>gradient_descent\<close> returns the final \<open>theta\<close> and the whole cost
  history to its caller. The run below returns the \<open>(2, 1)\<close> array \<open>theta\<close> and nothing
  else; the two costs of its two iterations are in the array given to \<open>plot_cost\<close>.
\<close>

theorem returns_cost_history_counterexample:
  "gradient_descent ex_X ex_y ex_theta (Fin 1) 2 2
     = Inr \<lparr>returned = \<lparr>nrows = 2, ncols = 1, elems = [[Fin (- (9 / 4))], [Fin (- (7 / 2))]]\<rparr>,
            plotted = [\<lparr>nrows = 2, ncols = 1, elems = [[Fin (117 / 16)], [Fin (1377 / 32)]]\<rparr>]\<rparr>"
  by code_simp

text \<open>
  C4, as the code has it. On arrays of matching shapes, with \<open>m \<noteq> 0\<close> and
  \<open>num_iters \<ge> 0\<close>, \<open>gradient_descent\<close> completes; the value it returns is \<open>theta\<close> after
  \<open>num_iters\<close> update steps, and the cost history, an array of shape \<open>(num_iters, 1)\<close>, is
  what it plots.
\<close>

theorem gradient_descent_returns_theta:
  assumes "nrows y = nrows X" "ncols y = 1" "nrows theta = ncols X" "ncols theta = 1"
      and "m \<noteq> 0" "0 \<le> num_iters"
  shows "\<exists>th J. theta_after X y alpha m (nat num_iters) theta = Inr th \<and>
           gradient_descent X y theta alpha num_iters m = Inr \<lparr>returned = th, plotted = [J]\<rparr> \<and>
           nrows J = nat num_iters \<and> ncols J = 1"
proof -
  obtain out where out: "gradient_descent X y theta alpha num_iters m = Inr out"
    using gradient_descent_succeeds [OF assms] by blast
  from gradient_descent_Inr [OF out] obtain J where
    "theta_after X y alpha m (nat num_iters) theta = Inr (returned out)"
    "plotted out = [J]" "nrows J = nat num_iters" "ncols J = 1"
    by blast
  moreover from this have "out = \<lparr>returned = returned out, plotted = [J]\<rparr>"
    by simp
  ultimately show ?thesis
    using out by metis
qed

theorem gradient_descent_returns_theta_witness:
  "nrows ex_y = nrows ex_X \<and> ncols ex_y = 1 \<and> nrows ex_theta = ncols ex_X \<and> ncols ex_theta = 1 \<and>
   (2::int) \<noteq> 0 \<and> (0::int) \<le> 1 \<and>
   (\<exists>th J. theta_after ex_X ex_y (Fin 1) 2 (nat 1) ex_theta = Inr th \<and>
      gradient_descent ex_X ex_y ex_theta (Fin 1) 1 2 = Inr \<lparr>returned = th, plotted = [J]\<rparr> \<and>
      nrows J = nat 1 \<and> ncols J = 1)"
proof -
  have "\<exists>th J. theta_after ex_X ex_y (Fin 1) 2 (nat 1) ex_theta = Inr th \<and>
      gradient_descent ex_X ex_y ex_theta (Fin 1) 1 2 = Inr \<lparr>returned = th, plotted = [J]\<rparr> \<and>
      nrows J = nat 1 \<and> ncols J = 1"
    by (rule gradient_descent_returns_theta) simp_all
  then show ?thesis
    by simp
qed

text \<open>
  C5. The claim is that a call with \<open>m \<le> 0\<close>, \<open>num_iters < 0\<close> or \<open>alpha \<le> 0\<close> fails with an
  invalid-argument error before the loop. No argument is checked: a negative \<open>alpha\<close>
  and a negative \<open>m\<close> both run the update step and return.
\<close>

theorem invalid_configuration_counterexample:
  "gradient_descent ex_X ex_y ex_theta (Fin (- 1)) 1 2
     = Inr \<lparr>returned = \<lparr>nrows = 2, ncols = 1, elems = [[Fin (- (3 / 2))], [Fin (- (5 / 2))]]\<rparr>,
            plotted = [\<lparr>nrows = 1, ncols = 1, elems = [[Fin (389 / 16)]]\<rparr>]\<rparr> \<and>
   gradient_descent ex_X ex_y ex_theta (Fin 1) 1 (- 2)
     = Inr \<lparr>returned = \<lparr>nrows = 2, ncols = 1, elems = [[Fin (- (3 / 2))], [Fin (- (5 / 2))]]\<rparr>,
            plotted = [\<lparr>nrows = 1, ncols = 1, elems = [[Fin (- (389 / 16))]]\<rparr>]\<rparr>"
  by code_simp

text \<open>
  C5, as the code has it. On arrays of matching shapes: a negative \<open>num_iters\<close> raises
  \<^verbatim>\<open>ValueError\<close> when the array of costs is allocated, before the loop; every \<open>m \<noteq> 0\<close>,
  negative or not, and every \<open>alpha\<close> run all the update steps and return; \<open>m = 0\<close> with at
  least one iteration raises \<^verbatim>\<open>ZeroDivisionError\<close>, at \<^verbatim>\<open>alpha / m\<close> in the first
  iteration; with no iteration the call returns, whatever \<open>m\<close> is.
\<close>

theorem gradient_descent_no_validation:
  assumes "nrows y = nrows X" "ncols y = 1" "nrows theta = ncols X" "ncols theta = 1"
  shows "(num_iters < 0 \<longrightarrow> gradient_descent X y theta alpha num_iters m = Inl ValueError) \<and>
         (0 \<le> num_iters \<and> m \<noteq> 0 \<longrightarrow>
            (\<exists>th J. theta_after X y alpha m (nat num_iters) theta = Inr th \<and>
               gradient_descent X y theta alpha num_iters m
                 = Inr \<lparr>returned = th, plotted = [J]\<rparr>)) \<and>
         (0 < num_iters \<and> m = 0 \<longrightarrow>
            gradient_descent X y theta alpha num_iters m = Inl ZeroDivisionError) \<and>
         (num_iters = 0 \<longrightarrow>
            gradient_descent X y theta alpha num_iters m
              = Inr \<lparr>returned = theta, plotted = [zeros 0 1]\<rparr>)"
proof (intro conjI impI)
  assume "num_iters < 0"
  then show "gradient_descent X y theta alpha num_iters m = Inl ValueError"
    by (simp add: gradient_descent_def)
next
  assume a: "0 \<le> num_iters \<and> m \<noteq> 0"
  obtain out where out: "gradient_descent X y theta alpha num_iters m = Inr out"
    using gradient_descent_succeeds [OF assms, of m num_iters alpha] a by blast
  from gradient_descent_Inr [OF out] obtain J where
    "theta_after X y alpha m (nat num_iters) theta = Inr (returned out)" "plotted out = [J]"
    by blast
  moreover from this have "out = \<lparr>returned = returned out, plotted = [J]\<rparr>"
    by simp
  ultimately show "\<exists>th J. theta_after X y alpha m (nat num_iters) theta = Inr th \<and>
      gradient_descent X y theta alpha num_iters m = Inr \<lparr>returned = th, plotted = [J]\<rparr>"
    using out by metis
next
  assume "0 < num_iters \<and> m = 0"
  then show "gradient_descent X y theta alpha num_iters m = Inl ZeroDivisionError"
    using assms by (simp add: gradient_descent_zero_m)
next
  assume "num_iters = 0"
  then show "gradient_descent X y theta alpha num_iters m
               = Inr \<lparr>returned = theta, plotted = [zeros 0 1]\<rparr>"
    by (simp add: gradient_descent_def plot_cost_def)
qed

theorem gradient_descent_no_validation_witness:
  "nrows ex_y = nrows ex_X \<and> ncols ex_y = 1 \<and> nrows ex_theta = ncols ex_X \<and> ncols ex_theta = 1 \<and>
   (- 1 :: int) < 0 \<and> gradient_descent ex_X ex_y ex_theta (Fin 1) (- 1) 2 = Inl ValueError \<and>
   (0 :: int) \<le> 1 \<and> (- 2 :: int) \<noteq> 0 \<and>
   (\<exists>th J. theta_after ex_X ex_y (Fin (- 1)) (- 2) (nat 1) ex_theta = Inr th \<and>
      gradient_descent ex_X ex_y ex_theta (Fin (- 1)) 1 (- 2)
        = Inr \<lparr>returned = th, plotted = [J]\<rparr>) \<and>
   (0 :: int) < 1 \<and> gradient_descent ex_X ex_y ex_theta (Fin 1) 1 0 = Inl ZeroDivisionError \<and>
   gradient_descent ex_X ex_y ex_theta (Fin 1) 0 0
     = Inr \<lparr>returned = ex_theta, plotted = [zeros 0 1]\<rparr>"
proof -
  have sh: "nrows ex_y = nrows ex_X" "ncols ex_y = 1" "nrows ex_theta = ncols ex_X"
    "ncols ex_theta = 1"
    by simp_all
  show ?thesis
    using gradient_descent_no_validation [OF sh, of "- 1" "Fin 1" 2]
      gradient_descent_no_validation [OF sh, of 1 "Fin (- 1)" "- 2"]
      gradient_descent_no_validation [OF sh, of 1 "Fin 1" 0]
      gradient_descent_no_validation [OF sh, of 0 "Fin 1" 0]
    by simp
qed

text \<open>
  C6. A feature matrix with exactly one column goes through the normalisation step
  unchanged, and that step changes \<open>X\<close> only when \<open>X\<close> has more than one column, where it
  is \<open>normalize\<close>. The step is the guarded call in \<open>load_data\<close>, the one caller of
  \<open>normalize\<close>: a table with one feature column and the labels gives the design matrix
  made of the column of ones and the feature as it was read.
\<close>

theorem single_feature_unchanged:
  "(ncols X = 1 \<longrightarrow> normalize_features X = X) \<and>
   (normalize_features X \<noteq> X \<longrightarrow> 1 < ncols X \<and> normalize_features X = normalize X) \<and>
   (ncols data = 2 \<longrightarrow>
      (\<exists>y theta. load_data data
         = Inr (append_ones (nrows data) (feature_columns data), y, theta, nrows data, 2))) \<and>
   (2 < ncols data \<longrightarrow>
      (\<exists>y theta. load_data data
         = Inr (append_ones (nrows data) (normalize (feature_columns data)), y, theta,
                nrows data, ncols data)))"
proof -
  have 1: "normalize_features X = X" if "ncols X = 1"
    using that by (simp add: normalize_features_def)
  have 2: "1 < ncols X \<and> normalize_features X = normalize X" if "normalize_features X \<noteq> X"
    using that by (auto simp: normalize_features_def split: if_splits)
  have 3: "\<exists>y theta. load_data data
      = Inr (append_ones (nrows data) (feature_columns data), y, theta, nrows data, 2)"
    if "ncols data = 2"
    using that
    by (simp add: load_data_def Let_def normalize_features_def feature_columns_def append_ones_def)
  have 4: "\<exists>y theta. load_data data
      = Inr (append_ones (nrows data) (normalize (feature_columns data)), y, theta,
             nrows data, ncols data)"
    if "2 < ncols data"
    using that
    by (simp add: load_data_def Let_def normalize_features_def feature_columns_def append_ones_def)
  from 1 2 3 4 show ?thesis
    by blast
qed

theorem single_feature_unchanged_witness:
  "ncols \<lparr>nrows = 2, ncols = 1, elems = [[Fin 1], [Fin 3]]\<rparr> = 1 \<and>
   normalize_features \<lparr>nrows = 2, ncols = 1, elems = [[Fin 1], [Fin 3]]\<rparr>
     = \<lparr>nrows = 2, ncols = 1, elems = [[Fin 1], [Fin 3]]\<rparr> \<and>
   ncols ex_table = 2 \<and>
   (\<exists>y theta. load_data ex_table
      = Inr (\<lparr>nrows = 2, ncols = 2, elems = [[Fin 1, Fin 1], [Fin 1, Fin 3]]\<rparr>, y, theta, 2, 2))"
proof -
  have a: "append_ones (nrows ex_table) (feature_columns ex_table)
             = \<lparr>nrows = 2, ncols = 2, elems = [[Fin 1, Fin 1], [Fin 1, Fin 3]]\<rparr>"
    by code_simp
  show ?thesis
    using single_feature_unchanged
      [of "\<lparr>nrows = 2, ncols = 1, elems = [[Fin 1], [Fin 3]]\<rparr>" ex_table] a
    by simp
qed

text \<open>
  C7. For \<open>X\<close> with finite elements, at least one row and columns of nonzero standard
  deviation (any number of columns, two or more in particular), \<open>normalize\<close> returns an
  array of the shape of \<open>X\<close> whose entry \<open>(i, j)\<close> is \<open>(X\<^sub>i\<^sub>j - mean\<^sub>j) / stddev\<^sub>j\<close>; in exact
  arithmetic every column of the result has mean 0 and standard deviation 1.
\<close>

theorem normalize_columns:
  assumes "wf X" "all_finite X" "1 \<le> nrows X" "\<forall>j<ncols X. spec_std X j \<noteq> 0"
  shows "wf (normalize X) \<and> nrows (normalize X) = nrows X \<and> ncols (normalize X) = ncols X \<and>
         (\<forall>i<nrows X. \<forall>j<ncols X.
            el (normalize X) i j = Fin ((val X i j - spec_mean X j) / spec_std X j)) \<and>
         (\<forall>j<ncols X. mean_of (column (normalize X) j) = Fin 0 \<and>
                        std_of (column (normalize X) j) = Fin 1)"
  using assms by (simp add: el_normalize_finite normalized_column)

theorem normalize_columns_witness:
  "wf ex_features \<and> all_finite ex_features \<and> 1 \<le> nrows ex_features \<and>
   ncols ex_features = 2 \<and> spec_std ex_features 0 \<noteq> 0 \<and> spec_std ex_features 1 \<noteq> 0 \<and>
   el (normalize ex_features) 0 0 = Fin (- 1) \<and> el (normalize ex_features) 1 0 = Fin 1 \<and>
   el (normalize ex_features) 0 1 = Fin (- 1) \<and> el (normalize ex_features) 1 1 = Fin 1 \<and>
   mean_of (column (normalize ex_features) 0) = Fin 0 \<and>
   std_of (column (normalize ex_features) 0) = Fin 1 \<and>
   mean_of (column (normalize ex_features) 1) = Fin 0 \<and>
   std_of (column (normalize ex_features) 1) = Fin 1"
proof -
  have w: "wf ex_features" "all_finite ex_features" "1 \<le> nrows ex_features"
    by (simp_all add: wf_def all_finite_def)
  have s: "\<forall>j<ncols ex_features. spec_std ex_features j \<noteq> 0"
    by (simp add: ex_features_stats less_2_cases_iff)
  have v: "val ex_features 0 0 = 1" "val ex_features 1 0 = 3"
    "val ex_features 0 1 = 2" "val ex_features 1 1 = 4"
    by (simp_all add: val_def el_def)
  show ?thesis
    using w s normalize_columns [OF w s] v by (simp add: ex_features_stats)
qed

text \<open>
  C8. The claim is that with \<open>num_iters = 0\<close> the call returns the initial \<open>theta\<close> together
  with an empty cost history. The run below returns the initial \<open>theta\<close> alone; the empty
  history is plotted, not returned.
\<close>

theorem zero_iterations_counterexample:
  "gradient_descent ex_X ex_y \<lparr>nrows = 2, ncols = 1, elems = [[Fin 3], [Fin 4]]\<rparr> (Fin 1) 0 2
     = Inr \<lparr>returned = \<lparr>nrows = 2, ncols = 1, elems = [[Fin 3], [Fin 4]]\<rparr>,
            plotted = [\<lparr>nrows = 0, ncols = 1, elems = []\<rparr>]\<rparr>"
  by code_simp

text \<open>
  C8, as the code has it. For all \<open>X\<close>, \<open>y\<close>, \<open>theta\<close>, \<open>alpha\<close> and \<open>m\<close>, a call with
  \<open>num_iters = 0\<close> performs no update step and returns the initial \<open>theta\<close>; the cost
  history it plots is the empty array of shape \<open>(0, 1)\<close>.
\<close>

theorem zero_iterations:
  "gradient_descent X y theta alpha 0 m
     = Inr \<lparr>returned = theta, plotted = [\<lparr>nrows = 0, ncols = 1, elems = []\<rparr>]\<rparr>"
  by (simp add: gradient_descent_def plot_cost_def zeros_def mk_def)



text \<open>
  C10. A call of \<open>gradient_descent\<close> leaves the arrays of the caller as they were: after
  the call, whether it returned or raised, \<open>X\<close>, \<open>y\<close> and the initial \<open>theta\<close>, and every
  other array that existed before, hold their original values. Each update step binds a
  freshly computed \<open>theta\<close>: after at least one iteration the reference returned is a
  new one, and with no iteration it is the caller's own. The values are those of the
  functions above: the array at the returned reference is the final \<open>theta\<close>, and the
  display has gained the cost history.
\<close>

theorem inputs_unmodified:
  assumes "X < length (cells s)" "y < length (cells s)" "theta < length (cells s)"
      and "gradient_descent_st X y theta alpha num_iters m s = (r, s')"
  shows "cells s' ! X = cells s ! X \<and> cells s' ! y = cells s ! y \<and>
         cells s' ! theta = cells s ! theta \<and>
         (\<forall>a<length (cells s). cells s' ! a = cells s ! a) \<and>
         (case gradient_descent (cells s ! X) (cells s ! y) (cells s ! theta) alpha num_iters m of
            Inl e \<Rightarrow> r = Inl e
          | Inr out \<Rightarrow>
              \<exists>p. r = Inr p \<and> cells s' ! p = returned out \<and>
                  shown s' = shown s @ plotted out \<and>
                  (if num_iters = 0 then p = theta else length (cells s) \<le> p))"
proof (cases "num_iters < 0")
  case True
  then show ?thesis
    using assms(4) by (simp add: gradient_descent_st_def gradient_descent_def raise_def)
next
  case False
  let ?j = "length (cells s)"
  let ?s0 = "s\<lparr>cells := cells s @ [zeros (nat num_iters) 1]\<rparr>"
  let ?idx = "[0..<nat num_iters]"
  let ?l = "gd_loop_st X y alpha m ?j ?idx theta ?s0"
  obtain r1 s1 where l: "?l = (r1, s1)" by (cases ?l)
  have v0: "cells ?s0 ! X = cells s ! X" "cells ?s0 ! y = cells s ! y"
    "cells ?s0 ! theta = cells s ! theta" "cells ?s0 ! ?j = zeros (nat num_iters) 1"
    using assms(1-3) by (simp_all add: nth_append)
  have "X < length (cells ?s0)" "y < length (cells ?s0)" "theta < length (cells ?s0)"
    "?j < length (cells ?s0)" "?j \<noteq> X" "?j \<noteq> y" "?j \<noteq> theta"
    using assms(1-3) by simp_all
  note ref = gd_loop_st_refines [OF this, of alpha m ?idx, unfolded l v0 fst_conv snd_conv]
  have pr: "preserved ?j ?s0 s1"
    using ref by simp
  have keep: "cells s1 ! a = cells s ! a" if "a < length (cells s)" for a
  proof -
    have "cells s1 ! a = cells ?s0 ! a"
      using pr that by (simp add: preserved_def)
    then show ?thesis
      using that by (simp add: nth_append)
  qed
  have sh: "shown s1 = shown s"
    using pr by (simp add: preserved_def)
  have run: "gradient_descent_st X y theta alpha num_iters m s
               = (case r1 of
                    Inl e \<Rightarrow> (Inl e, s1)
                  | Inr p \<Rightarrow> (Inr p, s1\<lparr>shown := shown s1 @ [cells s1 ! ?j]\<rparr>))"
    using False
    by (simp add: gradient_descent_st_def bind_def alloc_def l plot_cost_st_def plot_cost_def
        ret_def del: One_nat_def split: sum.splits)
  show ?thesis
  proof (cases "gd_loop (cells s ! X) (cells s ! y) alpha m ?idx
                  (cells s ! theta, zeros (nat num_iters) 1)")
    case (Inl e)
    then have "r1 = Inl e" using ref by simp
    then have "r = Inl e" "s' = s1"
      using assms(4) run by simp_all
    then show ?thesis
      using Inl False keep assms(1-3) by (simp add: gradient_descent_def)
  next
    case (Inr res)
    then obtain p where p: "r1 = Inr p" "cells s1 ! p = fst res" "cells s1 ! ?j = snd res"
      "if ?idx = [] then p = theta else length (cells ?s0) \<le> p"
      using ref by auto
    then have rs: "r = Inr p" "s' = s1\<lparr>shown := shown s1 @ [snd res]\<rparr>"
      using assms(4) run by simp_all
    have fresh: "if num_iters = 0 then p = theta else length (cells s) \<le> p"
      using p(4) False by (auto split: if_splits)
    show ?thesis
      using Inr False keep assms(1-3) rs p sh fresh
      by (simp add: gradient_descent_def plot_cost_def)
  qed
qed

theorem inputs_unmodified_witness:
  "(0::nat) < length (cells ex_store) \<and> (1::nat) < length (cells ex_store) \<and>
   (2::nat) < length (cells ex_store) \<and>
   cells (snd (gradient_descent_st 0 1 2 (Fin 1) 1 2 ex_store)) ! 0 = ex_X \<and>
   cells (snd (gradient_descent_st 0 1 2 (Fin 1) 1 2 ex_store)) ! 1 = ex_y \<and>
   cells (snd (gradient_descent_st 0 1 2 (Fin 1) 1 2 ex_store)) ! 2 = ex_theta \<and>
   fst (gradient_descent_st 0 1 2 (Fin 1) 1 2 ex_store) = Inr 10 \<and>
   cells (snd (gradient_descent_st 0 1 2 (Fin 1) 1 2 ex_store)) ! 10
     = \<lparr>nrows = 2, ncols = 1, elems = [[Fin (3 / 2)], [Fin (5 / 2)]]\<rparr> \<and>
   shown (snd (gradient_descent_st 0 1 2 (Fin 1) 1 2 ex_store))
     = [\<lparr>nrows = 1, ncols = 1, elems = [[Fin (117 / 16)]]\<rparr>]"
proof -
  let ?c = "gradient_descent_st 0 1 2 (Fin 1) 1 2 ex_store"
  have h: "(0::nat) < length (cells ex_store)" "(1::nat) < length (cells ex_store)"
    "(2::nat) < length (cells ex_store)"
    by simp_all
  have e: "?c = (fst ?c, snd ?c)"
    by simp
  have f: "fst ?c = Inr 10"
    by code_simp
  have g: "gradient_descent ex_X ex_y ex_theta (Fin 1) 1 2
     = Inr \<lparr>returned = \<lparr>nrows = 2, ncols = 1, elems = [[Fin (3 / 2)], [Fin (5 / 2)]]\<rparr>,
            plotted = [\<lparr>nrows = 1, ncols = 1, elems = [[Fin (117 / 16)]]\<rparr>]\<rparr>"
    by code_simp
  show ?thesis
    using h inputs_unmodified [OF h e] f g by simp
qed

end
